theory Spec2Isabelle
  imports Main "HOL-Library.Word"
begin

section \<open>Data model\<close>

text \<open>
  The vault of the modcore clipboard manager: the background worker's pending queue
  (\<open>addToPending\<close>), the cryptography module \<open>CryptoCore\<close>, the session object
  \<open>State\<close> and the popup's handlers. JavaScript strings are lists of code units; a
  \<open>char\<close> here is a code unit below 256. Numbers that the code stores (byte values,
  timestamps) are integers.
\<close>

type_synonym byte = "8 word"

text \<open>The object \<open>{ iv: [...], content: [...] }\<close> returned by \<open>CryptoCore.encrypt\<close>
  and kept under the storage key \<open>encryptedData\<close>. A field is \<open>None\<close> when the
  property is missing (reads as \<open>undefined\<close>).\<close>

record envelope =
  env_iv :: "int list option"
  env_content :: "int list option"

text \<open>An entry of the pending queue: \<open>{ content, timestamp }\<close>.\<close>

record clip =
  clip_content :: string
  clip_timestamp :: int

text \<open>The property \<open>metaText\<close> of a snippet: absent (snippets built from pending
  clips), \<open>null\<close>, or a caption.\<close>

datatype meta = MetaAbsent | MetaNull | MetaText string

record snippet =
  sn_id :: string
  sn_type :: string
  sn_content :: string
  sn_metaText :: meta
  sn_tags :: "string list"
  sn_date :: int

text \<open>\<open>chrome.storage.local\<close>: the four keys the extension uses; \<open>None\<close> is a key
  that is not set.\<close>

record storage =
  salt :: "int list option"
  encryptedData :: "envelope option"
  pendingClips :: "clip list option"
  monitoring :: "bool option"

definition empty_storage :: storage where
  "empty_storage = \<lparr>salt = None, encryptedData = None, pendingClips = None, monitoring = None\<rparr>"

text \<open>Errors that a promise rejects with or a statement throws.\<close>

datatype js_error = Error string | TypeError

text \<open>What the popup shows or calls, in order: toasts (message, type), view switches,
  calls of \<open>CryptoCore.deriveKey\<close> (PIN, salt) and page reloads.\<close>

datatype event =
    Toast string string
  | ShowView string
  | DeriveKey string "byte list"
  | Reload

text \<open>The inputs of one handler run that the code does not determine: the bytes of
  \<open>crypto.getRandomValues\<close> for the salt and for the IV, the results of
  \<open>crypto.randomUUID()\<close> and \<open>Date.now()\<close> (indexed by the number of snippets
  created so far in the run), and whether a write to \<open>chrome.storage.local\<close> is
  rejected (\<open>Some msg\<close>: rejected with \<open>Error(msg)\<close>). A rejected write leaves the
  storage as it was: a \<open>set\<close> call writes all its keys or none.\<close>

record env =
  salt_random :: "nat \<Rightarrow> byte"
  iv_random :: "nat \<Rightarrow> byte"
  uuid :: "nat \<Rightarrow> string"
  now :: "nat \<Rightarrow> int"
  set_error :: "string option"
  remove_error :: "string option"
  clear_error :: "string option"

text \<open>The primitives of the browser that \<open>CryptoCore\<close> calls, as parameters:
  PBKDF2 (\<open>importKey\<close> then \<open>deriveKey\<close>), AES-GCM (\<open>None\<close>: the promise rejects),
  \<open>JSON.stringify\<close>, \<open>TextEncoder.encode\<close>, \<open>TextDecoder.decode\<close> and
  \<open>JSON.parse\<close> (\<open>None\<close>: it throws).\<close>

record ('k, 'a) platform =
  pbkdf2 :: "string \<Rightarrow> byte list \<Rightarrow> 'k"
  aes_gcm_encrypt :: "'k \<Rightarrow> byte list \<Rightarrow> byte list \<Rightarrow> byte list"
  aes_gcm_decrypt :: "'k \<Rightarrow> byte list \<Rightarrow> byte list \<Rightarrow> byte list option"
  json_stringify :: "'a \<Rightarrow> string"
  text_encode :: "string \<Rightarrow> byte list"
  text_decode :: "byte list \<Rightarrow> string"
  json_parse :: "string \<Rightarrow> 'a option"

text \<open>The popup's \<open>State\<close> object together with the storage and the trace of
  events.\<close>

record 'k world =
  store :: storage
  key :: "'k option"
  snippets :: "snippet list"
  pendingEditId :: "string option"
  currentImageData :: "string option"
  trace :: "event list"

section \<open>Storage writes\<close>

definition storage_set :: "string option \<Rightarrow> (storage \<Rightarrow> storage) \<Rightarrow> storage \<Rightarrow> js_error + storage" where
  "storage_set failure upd s = (case failure of Some msg \<Rightarrow> Inl (Error msg) | None \<Rightarrow> Inr (upd s))"

section \<open>Background worker: the pending queue\<close>

text \<open>\<open>addToPending(content)\<close>: \<open>pendingClips || []\<close>, the duplicate check against
  \<open>list[0]\<close>, \<open>unshift\<close>, \<open>pop\<close> when longer than 20, then \<open>set\<close>.\<close>

definition addToPending :: "env \<Rightarrow> string \<Rightarrow> storage \<Rightarrow> js_error option \<times> storage" where
  "addToPending e content s =
     (let list = (case pendingClips s of None \<Rightarrow> [] | Some l \<Rightarrow> l) in
      if (case list of [] \<Rightarrow> False | c # _ \<Rightarrow> clip_content c = content) then (None, s)
      else
        let list1 = \<lparr>clip_content = content, clip_timestamp = now e 0\<rparr> # list;
            list2 = (if length list1 > 20 then butlast list1 else list1)
        in (case storage_set (set_error e) (\<lambda>t. t\<lparr>pendingClips := Some list2\<rparr>) s of
              Inl err \<Rightarrow> (Some err, s)
            | Inr s' \<Rightarrow> (None, s')))"

text \<open>The queue as the code reads it, and a run of the worker over several captures,
  each with its own inputs.\<close>

definition pending_list :: "storage \<Rightarrow> clip list" where
  "pending_list s = (case pendingClips s of None \<Rightarrow> [] | Some l \<Rightarrow> l)"

fun addAll :: "(env \<times> string) list \<Rightarrow> storage \<Rightarrow> storage" where
  "addAll [] s = s"
| "addAll ((e, c) # rest) s = addAll rest (snd (addToPending e c s))"

section \<open>CryptoCore\<close>

text \<open>\<open>Array.from(bytes)\<close> and \<open>new Uint8Array(x)\<close>: an array of numbers is
  converted element by element modulo 256; \<open>undefined\<close> gives the empty array.\<close>

definition array_from :: "byte list \<Rightarrow> int list" where
  "array_from bs = map uint bs"

definition new_Uint8Array :: "int list option \<Rightarrow> byte list" where
  "new_Uint8Array x = (case x of None \<Rightarrow> [] | Some ns \<Rightarrow> map word_of_int ns)"

definition saltLen :: nat where
  "saltLen = 16"

definition generateSalt :: "env \<Rightarrow> byte list" where
  "generateSalt e = map (salt_random e) [0..<saltLen]"

definition push :: "event \<Rightarrow> 'k world \<Rightarrow> 'k world" where
  "push ev w = w\<lparr>trace := trace w @ [ev]\<rparr>"

definition deriveKey :: "('k, 'a) platform \<Rightarrow> string \<Rightarrow> byte list \<Rightarrow> 'k world \<Rightarrow> 'k \<times> 'k world" where
  "deriveKey P pin slt w = (pbkdf2 P pin slt, push (DeriveKey pin slt) w)"

definition encrypt :: "('k, 'a) platform \<Rightarrow> env \<Rightarrow> 'a \<Rightarrow> 'k \<Rightarrow> envelope" where
  "encrypt P e data k =
     (let iv = map (iv_random e) [0..<12];
          encodedData = text_encode P (json_stringify P data);
          encryptedContent = aes_gcm_encrypt P k iv encodedData
      in \<lparr>env_iv = Some (array_from iv), env_content = Some (array_from encryptedContent)\<rparr>)"

definition decryption_failed :: js_error where
  "decryption_failed = Error ''Decryption failed. Invalid PIN or corrupted data.''"

text \<open>\<open>decrypt(encryptedObj, key)\<close>: the two property reads come before the
  \<open>try\<close>, so they throw a TypeError of their own when \<open>encryptedObj\<close> is
  \<open>undefined\<close>; everything inside the \<open>try\<close> is rethrown as one error.\<close>

definition decrypt :: "('k, 'a) platform \<Rightarrow> envelope option \<Rightarrow> 'k \<Rightarrow> js_error + 'a" where
  "decrypt P encryptedObj k =
     (case encryptedObj of
        None \<Rightarrow> Inl TypeError
      | Some obj \<Rightarrow>
          let iv = new_Uint8Array (env_iv obj);
              data = new_Uint8Array (env_content obj)
          in (case aes_gcm_decrypt P k iv data of
                None \<Rightarrow> Inl decryption_failed
              | Some decryptedContent \<Rightarrow>
                  (case json_parse P (text_decode P decryptedContent) of
                     None \<Rightarrow> Inl decryption_failed
                   | Some v \<Rightarrow> Inr v)))"

section \<open>Popup helpers\<close>

definition showToast :: "string \<Rightarrow> string \<Rightarrow> 'k world \<Rightarrow> 'k world" where
  "showToast msg type w = push (Toast msg type) w"

definition showView :: "string \<Rightarrow> 'k world \<Rightarrow> 'k world" where
  "showView viewName w = push (ShowView viewName) w"

text \<open>The pattern \<open>/^\d{6}$/\<close>: six code units, each one of \<open>0\<close> to \<open>9\<close>.\<close>

definition is_digit :: "char \<Rightarrow> bool" where
  "is_digit c = (let n = (of_char c :: nat) in 48 \<le> n \<and> n \<le> 57)"

definition six_digits :: "string \<Rightarrow> bool" where
  "six_digits pin = (length pin = 6 \<and> list_all is_digit pin)"

definition validatePin :: "string \<Rightarrow> 'k world \<Rightarrow> bool \<times> 'k world" where
  "validatePin pin w =
     (if \<not> six_digits pin then (False, showToast ''PIN must be exactly 6 digits'' ''error'' w)
      else (True, w))"

text \<open>Truthiness of a value that is \<open>null\<close> or a string.\<close>

definition truthy :: "string option \<Rightarrow> bool" where
  "truthy x = (case x of None \<Rightarrow> False | Some s \<Rightarrow> s \<noteq> [])"

text \<open>\<open>String.prototype.trim\<close>: the white space and line terminators below 256 are
  the code units 9 to 13, 32 and 160.\<close>

definition is_space :: "char \<Rightarrow> bool" where
  "is_space c = (let n = (of_char c :: nat) in (9 \<le> n \<and> n \<le> 13) \<or> n = 32 \<or> n = 160)"

definition trim :: "string \<Rightarrow> string" where
  "trim s = rev (dropWhile is_space (rev (dropWhile is_space s)))"

text \<open>Decimal digits of a number, for the template string of a toast.\<close>

fun decimal :: "nat \<Rightarrow> string" where
  "decimal n = (if n < 10 then [char_of (48 + n)] else decimal (n div 10) @ [char_of (48 + n mod 10)])"

section \<open>Persisting the collection\<close>

text \<open>\<open>saveEncrypted()\<close>: returns at once without a key; a failed write is caught
  and reported by a toast, so the promise never rejects.\<close>

definition saveEncrypted :: "('k, snippet list) platform \<Rightarrow> env \<Rightarrow> 'k world \<Rightarrow> js_error option \<times> 'k world" where
  "saveEncrypted P e w =
     (case key w of
        None \<Rightarrow> (None, w)
      | Some k \<Rightarrow>
          let encrypted = encrypt P e (snippets w) k in
          (case storage_set (set_error e) (\<lambda>t. t\<lparr>encryptedData := Some encrypted\<rparr>) (store w) of
             Inl err \<Rightarrow> (None, showToast ''Save failed: Storage error'' ''error'' w)
           | Inr s' \<Rightarrow> (None, w\<lparr>store := s'\<rparr>)))"

section \<open>Pending-queue reconciliation\<close>

definition auto_snippet :: "env \<Rightarrow> nat \<Rightarrow> clip \<Rightarrow> snippet" where
  "auto_snippet e n c =
     \<lparr>sn_id = uuid e n, sn_type = ''text'', sn_content = clip_content c,
      sn_metaText = MetaAbsent, sn_tags = [''auto''], sn_date = now e n\<rparr>"

text \<open>The \<open>forEach\<close> over the pending clips: the pair is \<open>State.snippets\<close> and
  \<open>count\<close>.\<close>

fun ingest :: "env \<Rightarrow> clip list \<Rightarrow> snippet list \<times> nat \<Rightarrow> snippet list \<times> nat" where
  "ingest e [] acc = acc"
| "ingest e (c # rest) (sn, count) =
     (if \<not> list_ex (\<lambda>s. sn_content s = clip_content c) sn
      then ingest e rest (auto_snippet e count c # sn, count + 1)
      else ingest e rest (sn, count))"

definition processPendingClips :: "('k, snippet list) platform \<Rightarrow> env \<Rightarrow> 'k world \<Rightarrow> js_error option \<times> 'k world" where
  "processPendingClips P e w =
     (case pendingClips (store w) of
        None \<Rightarrow> (None, w)
      | Some clips \<Rightarrow>
          if clips = [] then (None, w)
          else
            let (sn, count) = ingest e clips (snippets w, 0);
                w1 = w\<lparr>snippets := sn\<rparr>
            in if count > 0 then
                 let w2 = snd (saveEncrypted P e w1) in
                 (case storage_set (remove_error e) (\<lambda>t. t\<lparr>pendingClips := None\<rparr>) (store w2) of
                    Inl err \<Rightarrow> (Some err, w2)
                  | Inr s' \<Rightarrow>
                      (None, showToast (decimal count @ '' items auto-saved'') ''success'' (w2\<lparr>store := s'\<rparr>)))
               else (None, w1))"

section \<open>Authentication handlers\<close>

definition handleSetup :: "('k, snippet list) platform \<Rightarrow> env \<Rightarrow> string \<Rightarrow> string \<Rightarrow> 'k world \<Rightarrow> js_error option \<times> 'k world" where
  "handleSetup P e pin confirm w =
     (let (ok, w0) = validatePin pin w in
      if \<not> ok then (None, w0)
      else if pin \<noteq> confirm then (None, showToast ''PINs do not match'' ''error'' w0)
      else
        let slt = generateSalt e;
            (k, w1) = deriveKey P pin slt w0;
            encrypted = encrypt P e [] k
        in (case storage_set (set_error e)
                  (\<lambda>t. t\<lparr>salt := Some (array_from slt), encryptedData := Some encrypted\<rparr>) (store w1) of
              Inl err \<Rightarrow>
                (None, showToast (''Setup failed: '' @ (case err of Error msg \<Rightarrow> msg | TypeError \<Rightarrow> [])) ''error'' w1)
            | Inr s' \<Rightarrow>
                (None, showView ''dashboard'' (w1\<lparr>store := s', key := Some k, snippets := []\<rparr>))))"

definition handleLogin :: "('k, snippet list) platform \<Rightarrow> env \<Rightarrow> string \<Rightarrow> 'k world \<Rightarrow> js_error option \<times> 'k world" where
  "handleLogin P e pin w =
     (if pin = [] then (None, w)
      else
        (case salt (store w) of
           None \<Rightarrow> (None, showView ''onboarding'' w)
         | Some slt \<Rightarrow>
             let saltUint = new_Uint8Array (Some slt);
                 (k, w1) = deriveKey P pin saltUint w
             in (case decrypt P (encryptedData (store w1)) k of
                   Inl err \<Rightarrow> (None, showToast ''Incorrect PIN'' ''error'' w1)
                 | Inr sn \<Rightarrow>
                     (case processPendingClips P e (w1\<lparr>key := Some k, snippets := sn\<rparr>) of
                        (Some err, w3) \<Rightarrow> (None, showToast ''Incorrect PIN'' ''error'' w3)
                      | (None, w3) \<Rightarrow> (None, showView ''dashboard'' w3)))))"

definition handleChangePin :: "('k, snippet list) platform \<Rightarrow> env \<Rightarrow> string \<Rightarrow> string \<Rightarrow> 'k world \<Rightarrow> js_error option \<times> 'k world" where
  "handleChangePin P e p1 p2 w =
     (let (ok, w0) = validatePin p1 w in
      if \<not> ok then (None, w0)
      else if p1 \<noteq> p2 then (None, showToast ''PINs do not match'' ''error'' w0)
      else
        let newSalt = generateSalt e;
            (newKey, w1) = deriveKey P p1 newSalt w0;
            newEncryptedData = encrypt P e (snippets w1) newKey
        in (case storage_set (set_error e)
                  (\<lambda>t. t\<lparr>salt := Some (array_from newSalt), encryptedData := Some newEncryptedData\<rparr>) (store w1) of
              Inl err \<Rightarrow> (None, showToast ''Error changing PIN'' ''error'' w1)
            | Inr s' \<Rightarrow>
                (None, showToast ''PIN changed & data re-encrypted successfully'' ''success''
                         (w1\<lparr>store := s', key := Some newKey\<rparr>))))"

section \<open>Snippet handlers\<close>

text \<open>\<open>a || b\<close> for a value that is \<open>null\<close> or a string.\<close>

definition or_else :: "string option \<Rightarrow> string \<Rightarrow> string" where
  "or_else x d = (case x of None \<Rightarrow> d | Some s \<Rightarrow> if s = [] then d else s)"

fun findIndex :: "('a \<Rightarrow> bool) \<Rightarrow> 'a list \<Rightarrow> nat option" where
  "findIndex p [] = None"
| "findIndex p (x # xs) = (if p x then Some 0 else map_option Suc (findIndex p xs))"

text \<open>\<open>saveSnippet()\<close>; the argument \<open>raw\<close> is the value of the text area. Closing
  the modal and rendering the list touch the page only.\<close>

definition saveSnippet :: "('k, snippet list) platform \<Rightarrow> env \<Rightarrow> string \<Rightarrow> 'k world \<Rightarrow> js_error option \<times> 'k world" where
  "saveSnippet P e raw w =
     (let content = trim raw in
      if content = [] \<and> \<not> truthy (currentImageData w)
      then (None, showToast ''Snippet cannot be empty'' ''error'' w)
      else
        let newSnippet =
              \<lparr>sn_id = or_else (pendingEditId w) (uuid e 0),
               sn_type = (if truthy (currentImageData w) then ''image'' else ''text''),
               sn_content = or_else (currentImageData w) content,
               sn_metaText = (if truthy (currentImageData w) then MetaText content else MetaNull),
               sn_tags = [],
               sn_date = now e 0\<rparr>;
            w1 = (if truthy (pendingEditId w)
                  then (case findIndex (\<lambda>s. Some (sn_id s) = pendingEditId w) (snippets w) of
                          None \<Rightarrow> w
                        | Some idx \<Rightarrow> w\<lparr>snippets := (snippets w)[idx := newSnippet]\<rparr>)
                  else w\<lparr>snippets := newSnippet # snippets w\<rparr>)
        in (case saveEncrypted P e w1 of
              (Some err, w2) \<Rightarrow> (Some err, w2)
            | (None, w2) \<Rightarrow> (None, showToast ''Snippet saved securely'' ''success'' w2)))"

text \<open>The confirmed branch of \<open>deleteSnippet(id)\<close>.\<close>

definition deleteSnippet :: "('k, snippet list) platform \<Rightarrow> env \<Rightarrow> string \<Rightarrow> 'k world \<Rightarrow> js_error option \<times> 'k world" where
  "deleteSnippet P e ident w =
     (case saveEncrypted P e (w\<lparr>snippets := filter (\<lambda>s. sn_id s \<noteq> ident) (snippets w)\<rparr>) of
        (Some err, w2) \<Rightarrow> (Some err, w2)
      | (None, w2) \<Rightarrow> (None, showToast ''Snippet deleted'' ''success'' w2))"

section \<open>Reset, page load and monitoring\<close>

definition checkSetup :: "storage \<Rightarrow> bool" where
  "checkSetup s = (salt s \<noteq> None)"

text \<open>A freshly loaded popup over a storage: the initial \<open>State\<close> and the first view.\<close>

definition page_load :: "storage \<Rightarrow> event list \<Rightarrow> 'k world" where
  "page_load s tr =
     showView (if checkSetup s then ''auth'' else ''onboarding'')
       \<lparr>store = s, key = None, snippets = [], pendingEditId = None, currentImageData = None,
        trace = tr\<rparr>"

text \<open>\<open>handleReset()\<close>: \<open>chrome.storage.local.clear()\<close>, then \<open>location.reload()\<close>.\<close>

definition handleReset :: "env \<Rightarrow> 'k world \<Rightarrow> js_error option \<times> 'k world" where
  "handleReset e w =
     (case storage_set (clear_error e) (\<lambda>t. empty_storage) (store w) of
        Inl err \<Rightarrow> (Some err, w)
      | Inr s' \<Rightarrow> (None, page_load s' (trace w @ [Reload])))"

text \<open>The state of the monitoring checkbox that \<open>bindEvents\<close> loads:
  \<open>!!r.monitoring\<close>.\<close>

definition toggle_monitor_checked :: "storage \<Rightarrow> bool" where
  "toggle_monitor_checked s = (monitoring s = Some True)"

text \<open>The content script's \<open>copy\<close> listener followed by the worker's \<open>autoSave\<close>
  message handler; \<open>clipboard\<close> is the text read (\<open>None\<close>: reading threw).\<close>

definition copy_listener :: "env \<Rightarrow> string option \<Rightarrow> storage \<Rightarrow> js_error option \<times> storage" where
  "copy_listener e clipboard s =
     (if \<not> (monitoring s = Some True) then (None, s)
      else (case clipboard of
              None \<Rightarrow> (None, s)
            | Some text \<Rightarrow>
                if text \<noteq> [] \<and> length (trim text) > 0 then addToPending e text s
                else (None, s)))"

section \<open>A small platform and inputs on which the handlers run\<close>

definition mk_clip :: "string \<Rightarrow> clip" where
  "mk_clip c = \<lparr>clip_content = c, clip_timestamp = 0\<rparr>"

definition mk_snippet :: "string \<Rightarrow> string \<Rightarrow> snippet" where
  "mk_snippet i c =
     \<lparr>sn_id = i, sn_type = ''text'', sn_content = c, sn_metaText = MetaNull, sn_tags = [],
      sn_date = 0\<rparr>"

text \<open>A transparent stand-in for the browser's primitives, used to run the handlers on
  concrete inputs: the key is the PIN's bytes followed by the salt, a ciphertext is the
  key, the IV and the plaintext in a row, the text of a collection is its contents
  between brackets, and what is parsed back is the empty collection or one plain text
  snippet with the id \<open>a\<close>.\<close>

definition demo_platform :: "(byte list, snippet list) platform" where
  "demo_platform =
     \<lparr>pbkdf2 = (\<lambda>pin slt. map of_char pin @ slt),
      aes_gcm_encrypt = (\<lambda>k iv pt. k @ iv @ pt),
      aes_gcm_decrypt = (\<lambda>k iv ct.
         if take (length k + length iv) ct = k @ iv then Some (drop (length k + length iv) ct)
         else None),
      json_stringify = (\<lambda>c. ''['' @ concat (map sn_content c) @ '']''),
      text_encode = map of_char,
      text_decode = map (\<lambda>b. char_of (unat b)),
      json_parse = (\<lambda>s.
         case s of
           [] \<Rightarrow> None
         | c # rest \<Rightarrow>
             if c = CHR ''['' \<and> rest \<noteq> [] \<and> last rest = CHR '']''
             then (if butlast rest = [] then Some [] else Some [mk_snippet ''a'' (butlast rest)])
             else None)\<rparr>"

definition demo_env :: env where
  "demo_env =
     \<lparr>salt_random = (\<lambda>i. 7), iv_random = (\<lambda>i. 9), uuid = (\<lambda>n. ''u'' @ decimal n),
      now = (\<lambda>n. 1000 + int n), set_error = None, remove_error = None, clear_error = None\<rparr>"

text \<open>A full pending queue: twenty clips with the contents \<open>0\<close> to \<open>19\<close>.\<close>

definition queue20 :: storage where
  "queue20 = empty_storage\<lparr>pendingClips := Some (map (\<lambda>i. mk_clip (decimal i)) [0..<20])\<rparr>"

text \<open>A storage as \<open>handleSetup\<close> with the PIN \<open>123456\<close> leaves it on the small
  platform (the envelope holds the empty collection), with two pending clips and
  monitoring switched on; a popup freshly loaded over it, which is locked; and an
  unlocked session over it that holds one snippet.\<close>

definition demo_store :: storage where
  "demo_store =
     \<lparr>salt = Some (replicate 16 7),
      encryptedData = Some
        \<lparr>env_iv = Some (replicate 12 9),
         env_content = Some (map uint
           (map of_char ''123456'' @ replicate 16 7 @ replicate 12 9 @ map of_char ''[]'' :: byte list))\<rparr>,
      pendingClips = Some [mk_clip ''foo'', mk_clip ''bar''],
      monitoring = Some True\<rparr>"

definition locked_world :: "byte list world" where
  "locked_world = page_load demo_store []"

definition unlocked_world :: "byte list world" where
  "unlocked_world =
     \<lparr>store = demo_store, key = Some (map of_char ''123456'' @ replicate 16 7),
      snippets = [mk_snippet ''a'' ''hello''], pendingEditId = None, currentImageData = None,
      trace = []\<rparr>"

text \<open>The same storage after the snippet \<open>foo\<close> was saved, with the one pending clip
  \<open>foo\<close>.\<close>

definition dup_store :: storage where
  "dup_store =
     \<lparr>salt = Some (replicate 16 7),
      encryptedData = Some
        \<lparr>env_iv = Some (replicate 12 9),
         env_content = Some (map uint
           (map of_char ''123456'' @ replicate 16 7 @ replicate 12 9 @ map of_char ''[foo]'' :: byte list))\<rparr>,
      pendingClips = Some [mk_clip ''foo''],
      monitoring = None\<rparr>"

definition dup_world :: "byte list world" where
  "dup_world = page_load dup_store []"

text \<open>Inputs of a PIN change: another salt and IV, and the same with the write
  rejected.\<close>

definition rekey_env :: env where
  "rekey_env = demo_env\<lparr>salt_random := (\<lambda>i. 5), iv_random := (\<lambda>i. 11)\<rparr>"

definition quota_env :: env where
  "quota_env = rekey_env\<lparr>set_error := Some ''QUOTA_BYTES quota exceeded''\<rparr>"

section \<open>Observations on a run\<close>

text \<open>The calls of \<open>deriveKey\<close> in a trace, in order.\<close>

fun derivations :: "event list \<Rightarrow> (string \<times> byte list) list" where
  "derivations [] = []"
| "derivations (DeriveKey pin slt # evs) = (pin, slt) # derivations evs"
| "derivations (ev # evs) = derivations evs"

text \<open>Whether the key derived from a PIN and the stored salt decrypts the stored
  envelope: a PIN is incorrect for a storage when it does not.\<close>

definition opens :: "('k, 'a) platform \<Rightarrow> storage \<Rightarrow> string \<Rightarrow> bool" where
  "opens P s pin =
     (case salt s of
        None \<Rightarrow> False
      | Some slt \<Rightarrow>
          (case decrypt P (encryptedData s) (pbkdf2 P pin (new_Uint8Array (Some slt))) of
             Inl err \<Rightarrow> False
           | Inr v \<Rightarrow> True))"

text \<open>Several unlock attempts in a row, each with its own inputs.\<close>

fun loginAll :: "('k, snippet list) platform \<Rightarrow> (env \<times> string) list \<Rightarrow> 'k world \<Rightarrow> 'k world" where
  "loginAll P [] w = w"
| "loginAll P ((e, pin) # rest) w = loginAll P rest (snd (handleLogin P e pin w))"

text \<open>A value is serializable on a platform when \<open>JSON.stringify\<close>, the UTF-8 encoder,
  the decoder and \<open>JSON.parse\<close> in a row give it back.\<close>

definition serializable :: "('k, 'a) platform \<Rightarrow> 'a \<Rightarrow> bool" where
  "serializable P v = (json_parse P (text_decode P (text_encode P (json_stringify P v))) = Some v)"

section \<open>The pending queue is bounded and suppresses a repeated head\<close>

lemma addToPending_length:
  "length (pending_list s) \<le> 20 \<Longrightarrow> length (pending_list (snd (addToPending e c s))) \<le> 20"
  by (auto simp: addToPending_def pending_list_def storage_set_def Let_def
           split: option.splits list.splits)

lemma addAll_length:
  "length (pending_list s) \<le> 20 \<Longrightarrow> length (pending_list (addAll runs s)) \<le> 20"
proof (induction runs arbitrary: s)
  case Nil
  then show ?case by simp
next
  case (Cons r runs)
  obtain e c where r: "r = (e, c)" by (cases r)
  from Cons.prems have "length (pending_list (snd (addToPending e c s))) \<le> 20"
    by (rule addToPending_length)
  then show ?case unfolding r by (simp add: Cons.IH)
qed

lemma addToPending_duplicate:
  "pending_list s = x # xs \<Longrightarrow> clip_content x = c \<Longrightarrow> addToPending e c s = (None, s)"
  by (auto simp: addToPending_def pending_list_def Let_def split: option.splits)

lemma pop_when_longer:
  "length l \<le> 20 \<Longrightarrow> (if length (x # l) > 20 then butlast (x # l) else x # l) = take 20 (x # l)"
proof (cases "length l = 20")
  case True
  then have "butlast (x # l) = take 20 (x # l)"
    by (simp add: butlast_conv_take)
  with True show ?thesis by simp
next
  case False
  assume "length l \<le> 20"
  with False show ?thesis by simp
qed

lemma addToPending_fresh:
  assumes "case pending_list s of [] \<Rightarrow> True | x # _ \<Rightarrow> clip_content x \<noteq> c"
    and "set_error e = None" and "length (pending_list s) \<le> 20"
  shows "pending_list (snd (addToPending e c s)) =
     take 20 (\<lparr>clip_content = c, clip_timestamp = now e 0\<rparr> # pending_list s)"
proof -
  let ?new = "\<lparr>clip_content = c, clip_timestamp = now e 0\<rparr>"
  have nodup: "\<not> (case pending_list s of [] \<Rightarrow> False | x # _ \<Rightarrow> clip_content x = c)"
    using assms(1) by (cases "pending_list s") auto
  have "pending_list (snd (addToPending e c s)) =
        (if length (?new # pending_list s) > 20 then butlast (?new # pending_list s)
         else ?new # pending_list s)"
    using nodup assms(2)
    by (simp add: addToPending_def pending_list_def storage_set_def Let_def)
  then show ?thesis
    using pop_when_longer [OF assms(3), of ?new] by simp
qed

text \<open>
  Claim C8. After an insertion the pending queue holds at most 20 entries, provided it
  held at most 20 before, and so it does after any run of insertions that starts from
  an unset queue. An insertion that is written keeps the new entry in front of the old
  ones and keeps the first 20 of them, so the oldest entry of a full queue is dropped.
  An insertion whose content equals the content of the head of the queue returns with
  the storage unchanged.
\<close>

theorem pending_queue_insertion:
  assumes "length (pending_list s) \<le> 20"
  shows "length (pending_list (snd (addToPending e c s))) \<le> 20
       \<and> length (pending_list (addAll runs empty_storage)) \<le> 20
       \<and> (set_error e = None
            \<and> (case pending_list s of [] \<Rightarrow> True | x # _ \<Rightarrow> clip_content x \<noteq> c) \<longrightarrow>
           pending_list (snd (addToPending e c s)) =
             take 20 (\<lparr>clip_content = c, clip_timestamp = now e 0\<rparr> # pending_list s))
       \<and> ((case pending_list s of [] \<Rightarrow> False | x # _ \<Rightarrow> clip_content x = c) \<longrightarrow>
           addToPending e c s = (None, s))"
proof (intro conjI impI)
  show "length (pending_list (snd (addToPending e c s))) \<le> 20"
    using assms by (rule addToPending_length)
  show "length (pending_list (addAll runs empty_storage)) \<le> 20"
    by (rule addAll_length) (simp add: pending_list_def empty_storage_def)
next
  assume "set_error e = None
          \<and> (case pending_list s of [] \<Rightarrow> True | x # _ \<Rightarrow> clip_content x \<noteq> c)"
  then show "pending_list (snd (addToPending e c s)) =
             take 20 (\<lparr>clip_content = c, clip_timestamp = now e 0\<rparr> # pending_list s)"
    using assms by (simp add: addToPending_fresh)
next
  assume a: "case pending_list s of [] \<Rightarrow> False | x # _ \<Rightarrow> clip_content x = c"
  then obtain x xs where l: "pending_list s = x # xs" by (cases "pending_list s") auto
  with a show "addToPending e c s = (None, s)" by (simp add: addToPending_duplicate[OF l])
qed

theorem pending_queue_insertion_witness:
  "length (pending_list queue20) = 20
   \<and> length (pending_list (snd (addToPending demo_env ''new'' queue20))) \<le> 20
   \<and> map clip_content (pending_list (snd (addToPending demo_env ''new'' queue20))) =
       ''new'' # map decimal [0..<19]
   \<and> addToPending demo_env ''0'' queue20 = (None, queue20)"
proof -
  have len: "length (pending_list queue20) = 20"
    by code_simp
  have hd0: "map clip_content (pending_list queue20) = map decimal [0..<20]"
    by code_simp
  have d: "map decimal [0..<20] = ''0'' # map decimal [1..<20]"
    by code_simp
  have fresh: "case pending_list queue20 of [] \<Rightarrow> True | x # _ \<Rightarrow> clip_content x \<noteq> ''new''"
    using hd0 d by (cases "pending_list queue20") auto
  have dup: "case pending_list queue20 of [] \<Rightarrow> False | x # _ \<Rightarrow> clip_content x = ''0''"
    using hd0 d by (cases "pending_list queue20") auto
  have e: "set_error demo_env = None"
    by (simp add: demo_env_def)
  have le: "length (pending_list queue20) \<le> 20"
    using len by simp
  note t = pending_queue_insertion [OF le, of demo_env]
  from t [of "''new''" "[]"] e fresh
  have new: "length (pending_list (snd (addToPending demo_env ''new'' queue20))) \<le> 20"
    and newl: "pending_list (snd (addToPending demo_env ''new'' queue20)) =
      take 20 (\<lparr>clip_content = ''new'', clip_timestamp = now demo_env 0\<rparr> # pending_list queue20)"
    by simp_all
  have "map clip_content (pending_list (snd (addToPending demo_env ''new'' queue20))) =
        ''new'' # take 19 (map decimal [0..<20])"
    unfolding newl by (simp add: take_map hd0 [symmetric])
  also have "take 19 (map decimal [0..<20]) = map decimal [0..<19]"
    by code_simp
  finally have cont: "map clip_content (pending_list (snd (addToPending demo_env ''new'' queue20))) =
        ''new'' # map decimal [0..<19]" .
  from t [of "''0''" "[]"] dup have "addToPending demo_env ''0'' queue20 = (None, queue20)"
    by simp
  then show ?thesis using len new cont by simp
qed

section \<open>Errors of decrypt\<close>

text \<open>For an envelope that is an object, whatever its fields hold, every failure of
  \<open>decrypt\<close> is the one error thrown by the \<open>catch\<close> block.\<close>

lemma decrypt_object_uniform:
  "decrypt P (Some obj) k = Inl err \<Longrightarrow> err = decryption_failed"
  by (auto simp: decrypt_def Let_def split: option.splits)

text \<open>
  Claim C3. The claim asks that every failure of \<open>decrypt\<close>, a malformed envelope
  included, is the single uniform decryption error. With the envelope missing
  (\<open>encryptedObj\<close> is \<open>undefined\<close>) the read of \<open>encryptedObj.iv\<close>, which stands
  before the \<open>try\<close>, throws a TypeError, and that is what \<open>decrypt\<close> fails with, on
  every platform and for every key.
\<close>

theorem decrypt_missing_envelope:
  "decrypt P None k = Inl TypeError \<and> decrypt P None k \<noteq> Inl decryption_failed"
  by (simp add: decrypt_def decryption_failed_def)

section \<open>Mutations without a session key\<close>

text \<open>
  Claim C9, as amended. Without a session key no mutation raises an error, and none
  writes: \<open>saveEncrypted\<close> returns normally and changes nothing, and \<open>saveSnippet\<close> and
  \<open>deleteSnippet\<close> return normally and leave the storage and the missing key as they
  were. \<open>deleteSnippet\<close> still removes the snippet from the collection in memory and
  reports success. \<open>saveSnippet\<close> with blank text and no image changes nothing and shows
  the toast that a snippet cannot be empty; otherwise it reports success and still
  changes the collection in memory: with no edit id it puts the new snippet in front,
  with an edit id it replaces the snippet of that id, if there is one.
\<close>

theorem mutate_locked_no_error:
  assumes "key w = None"
  shows "saveEncrypted P e w = (None, w)
       \<and> fst (saveSnippet P e raw w) = None
       \<and> store (snd (saveSnippet P e raw w)) = store w
       \<and> key (snd (saveSnippet P e raw w)) = None
       \<and> fst (deleteSnippet P e ident w) = None
       \<and> store (snd (deleteSnippet P e ident w)) = store w
       \<and> key (snd (deleteSnippet P e ident w)) = None
       \<and> snippets (snd (deleteSnippet P e ident w)) = filter (\<lambda>s. sn_id s \<noteq> ident) (snippets w)
       \<and> trace (snd (deleteSnippet P e ident w)) = trace w @ [Toast ''Snippet deleted'' ''success'']
       \<and> (trim raw = [] \<and> \<not> truthy (currentImageData w) \<longrightarrow>
            snd (saveSnippet P e raw w) = showToast ''Snippet cannot be empty'' ''error'' w
            \<and> snippets (snd (saveSnippet P e raw w)) = snippets w
            \<and> trace (snd (saveSnippet P e raw w)) =
                trace w @ [Toast ''Snippet cannot be empty'' ''error''])
       \<and> (\<not> (trim raw = [] \<and> \<not> truthy (currentImageData w)) \<longrightarrow>
            trace (snd (saveSnippet P e raw w)) =
              trace w @ [Toast ''Snippet saved securely'' ''success''])
       \<and> (\<not> (trim raw = [] \<and> \<not> truthy (currentImageData w)) \<and> \<not> truthy (pendingEditId w) \<longrightarrow>
            snippets (snd (saveSnippet P e raw w)) =
              \<lparr>sn_id = uuid e 0,
               sn_type = (if truthy (currentImageData w) then ''image'' else ''text''),
               sn_content = or_else (currentImageData w) (trim raw),
               sn_metaText = (if truthy (currentImageData w) then MetaText (trim raw) else MetaNull),
               sn_tags = [],
               sn_date = now e 0\<rparr> # snippets w)
       \<and> (\<not> (trim raw = [] \<and> \<not> truthy (currentImageData w)) \<and> truthy (pendingEditId w) \<longrightarrow>
            snippets (snd (saveSnippet P e raw w)) =
              (case findIndex (\<lambda>s. Some (sn_id s) = pendingEditId w) (snippets w) of
                 None \<Rightarrow> snippets w
               | Some idx \<Rightarrow>
                   (snippets w)[idx :=
                     \<lparr>sn_id = or_else (pendingEditId w) (uuid e 0),
                      sn_type = (if truthy (currentImageData w) then ''image'' else ''text''),
                      sn_content = or_else (currentImageData w) (trim raw),
                      sn_metaText = (if truthy (currentImageData w) then MetaText (trim raw) else MetaNull),
                      sn_tags = [],
                      sn_date = now e 0\<rparr>]))"
proof -
  have se: "saveEncrypted P e v = (None, v)" if "key v = None" for v :: "'a world"
    using that by (simp add: saveEncrypted_def)
  have del: "deleteSnippet P e ident w =
      (None, showToast ''Snippet deleted'' ''success''
               (w\<lparr>snippets := filter (\<lambda>s. sn_id s \<noteq> ident) (snippets w)\<rparr>))"
    using assms by (simp add: deleteSnippet_def se)
  show ?thesis
  proof (cases "trim raw = [] \<and> \<not> truthy (currentImageData w)")
    case True
    then have "saveSnippet P e raw w = (None, showToast ''Snippet cannot be empty'' ''error'' w)"
      by (simp add: saveSnippet_def Let_def)
    with True assms del se [OF assms] show ?thesis
      by (simp add: showToast_def push_def)
  next
    case False
    show ?thesis
    proof (cases "truthy (pendingEditId w)")
      case edit: True
      show ?thesis
      proof (cases "findIndex (\<lambda>s. Some (sn_id s) = pendingEditId w) (snippets w)")
        case None
        with False edit assms del se [OF assms] show ?thesis
          by (simp add: saveSnippet_def Let_def se showToast_def push_def)
      next
        case (Some idx)
        with False edit assms del se [OF assms] show ?thesis
          by (simp add: saveSnippet_def Let_def se showToast_def push_def)
      qed
    next
      case fresh: False
      then have "or_else (pendingEditId w) (uuid e 0) = uuid e 0"
        by (simp add: or_else_def truthy_def split: option.splits)
      with fresh False assms del se [OF assms] show ?thesis
        by (simp add: saveSnippet_def Let_def se showToast_def push_def)
    qed
  qed
qed

theorem mutate_locked_no_error_witness:
  "key locked_world = None
   \<and> saveEncrypted demo_platform demo_env locked_world = (None, locked_world)
   \<and> fst (deleteSnippet demo_platform demo_env ''u0'' locked_world) = None
   \<and> trim ''hello'' = ''hello'' \<and> \<not> truthy (pendingEditId locked_world)
   \<and> \<not> truthy (currentImageData locked_world)
   \<and> snippets locked_world = []
   \<and> snippets (snd (saveSnippet demo_platform demo_env ''hello'' locked_world)) =
       [\<lparr>sn_id = ''u0'', sn_type = ''text'', sn_content = ''hello'', sn_metaText = MetaNull,
         sn_tags = [], sn_date = 1000\<rparr>]
   \<and> trace (snd (saveSnippet demo_platform demo_env ''hello'' locked_world)) =
       trace locked_world @ [Toast ''Snippet saved securely'' ''success'']
   \<and> trim ''  '' = []
   \<and> snippets (snd (saveSnippet demo_platform demo_env ''  '' locked_world)) = []
   \<and> trace (snd (saveSnippet demo_platform demo_env ''  '' locked_world)) =
       trace locked_world @ [Toast ''Snippet cannot be empty'' ''error'']"
proof -
  have k: "key locked_world = None"
    by code_simp
  have t: "trim ''hello'' = ''hello''" "trim ''  '' = []"
    by code_simp+
  have f: "\<not> truthy (pendingEditId locked_world)" "\<not> truthy (currentImageData locked_world)"
    "snippets locked_world = []"
    by code_simp+
  have u: "uuid demo_env 0 = ''u0''" "now demo_env 0 = 1000"
    by code_simp+
  have o: "or_else (currentImageData locked_world) ''hello'' = ''hello''"
    by code_simp
  from mutate_locked_no_error [OF k, of demo_platform demo_env "''hello''" "''u0''"]
    mutate_locked_no_error [OF k, of demo_platform demo_env "''  ''" "''u0''"]
    k t f u o show ?thesis
    by (simp add: showToast_def push_def)
qed

text \<open>The claim as stated fails: saving the text \<open>hello\<close> in a locked popup raises
  no error, puts the snippet into the collection in memory, writes nothing and reports
  success.\<close>

theorem mutate_locked_counterexample:
  "key locked_world = None
   \<and> fst (saveSnippet demo_platform demo_env ''hello'' locked_world) = None
   \<and> snippets locked_world = []
   \<and> map sn_content (snippets (snd (saveSnippet demo_platform demo_env ''hello'' locked_world))) =
       [''hello'']
   \<and> store (snd (saveSnippet demo_platform demo_env ''hello'' locked_world)) = store locked_world
   \<and> last (trace (snd (saveSnippet demo_platform demo_env ''hello'' locked_world))) =
        Toast ''Snippet saved securely'' ''success''"
  by code_simp

section \<open>Reset\<close>

text \<open>
  Claim C10. When \<open>clear()\<close> is not rejected, \<open>handleReset\<close> leaves every storage key
  unset, the \<open>monitoring\<close> flag among them: the reloaded popup's checkbox reads
  unchecked, the copy listener captures nothing, and the session is empty.
\<close>

theorem reset_clears_monitoring:
  assumes "clear_error e = None"
  shows "fst (handleReset e w) = None
       \<and> store (snd (handleReset e w)) = empty_storage
       \<and> monitoring (store (snd (handleReset e w))) = None
       \<and> \<not> toggle_monitor_checked (store (snd (handleReset e w)))
       \<and> copy_listener e' clipboard (store (snd (handleReset e w))) = (None, empty_storage)
       \<and> key (snd (handleReset e w)) = None
       \<and> snippets (snd (handleReset e w)) = []"
  using assms
  by (simp add: handleReset_def storage_set_def page_load_def showView_def push_def
        empty_storage_def toggle_monitor_checked_def copy_listener_def)

theorem reset_clears_monitoring_witness:
  "clear_error demo_env = None
   \<and> toggle_monitor_checked (store unlocked_world)
   \<and> monitoring (store (snd (handleReset demo_env unlocked_world))) = None
   \<and> \<not> toggle_monitor_checked (store (snd (handleReset demo_env unlocked_world)))
   \<and> store (snd (handleReset demo_env unlocked_world)) = empty_storage"
proof -
  have c: "clear_error demo_env = None"
    by (simp add: demo_env_def)
  have m: "toggle_monitor_checked (store unlocked_world)"
    by code_simp
  from reset_clears_monitoring [OF c, of unlocked_world] c m show ?thesis
    by (simp add: empty_storage_def toggle_monitor_checked_def)
qed

section \<open>Pending-queue reconciliation on unlock\<close>

text \<open>The loop over the pending clips puts the new snippets in front of the collection:
  one for each content of the queue that no snippet of the collection has, the first
  clip of a content only, the latest in front.\<close>

lemma remdups_snoc: "remdups (xs @ [c]) = remdups (filter (\<lambda>x. x \<noteq> c) xs) @ [c]"
  by (induction xs) auto

lemma list_ex_content: "list_ex (\<lambda>s. sn_content s = c) sn \<longleftrightarrow> c \<in> sn_content ` set sn"
  by (auto simp: list_ex_iff)

lemma ingest_shape:
  "\<exists>news. ingest e clips (sn, n) = (news @ sn, n + length news)
     \<and> map sn_content news =
         remdups (rev (filter (\<lambda>c. c \<notin> sn_content ` set sn) (map clip_content clips)))
     \<and> (\<forall>s \<in> set news. sn_type s = ''text'' \<and> sn_tags s = [''auto''])"
proof (induction clips arbitrary: sn n)
  case Nil
  then show ?case by simp
next
  case (Cons c rest)
  show ?case
  proof (cases "clip_content c \<in> sn_content ` set sn")
    case True
    with Cons.IH [of sn n] show ?thesis
      by (simp add: list_ex_content)
  next
    case False
    let ?a = "auto_snippet e n c"
    from Cons.IH [of "?a # sn" "n + 1"] obtain news where
      ing: "ingest e rest (?a # sn, n + 1) = (news @ ?a # sn, n + 1 + length news)"
      and con: "map sn_content news =
         remdups (rev (filter (\<lambda>x. x \<notin> sn_content ` set (?a # sn)) (map clip_content rest)))"
      and tags: "\<forall>s \<in> set news. sn_type s = ''text'' \<and> sn_tags s = [''auto'']"
      by blast
    have ac: "sn_content ?a = clip_content c"
      by (simp add: auto_snippet_def)
    have f: "filter (\<lambda>x. x \<notin> sn_content ` set (?a # sn)) (map clip_content rest) =
             filter (\<lambda>x. x \<noteq> clip_content c)
               (filter (\<lambda>x. x \<notin> sn_content ` set sn) (map clip_content rest))"
      by (auto simp: ac intro: filter_cong)
    have "ingest e (c # rest) (sn, n) = ((news @ [?a]) @ sn, n + length (news @ [?a]))"
      using False ing by (simp add: list_ex_content)
    moreover have "map sn_content (news @ [?a]) =
         remdups (rev (filter (\<lambda>x. x \<notin> sn_content ` set sn) (map clip_content (c # rest))))"
      using False by (simp add: con f ac remdups_snoc rev_filter conj_commute)
    moreover have "\<forall>s \<in> set (news @ [?a]). sn_type s = ''text'' \<and> sn_tags s = [''auto'']"
      using tags by (simp add: auto_snippet_def)
    ultimately show ?thesis by blast
  qed
qed

lemma saveEncrypted_frame:
  "fst (saveEncrypted P e w) = None
   \<and> snippets (snd (saveEncrypted P e w)) = snippets w
   \<and> key (snd (saveEncrypted P e w)) = key w
   \<and> pendingClips (store (snd (saveEncrypted P e w))) = pendingClips (store w)
   \<and> salt (store (snd (saveEncrypted P e w))) = salt (store w)"
  by (auto simp: saveEncrypted_def storage_set_def showToast_def push_def Let_def split: option.splits)

lemma processPendingClips_snippets:
  "snippets (snd (processPendingClips P e w)) = fst (ingest e (pending_list (store w)) (snippets w, 0))"
  by (auto simp: processPendingClips_def pending_list_def Let_def storage_set_def showToast_def
        push_def saveEncrypted_frame split: option.splits prod.splits)

lemma processPendingClips_key:
  "key (snd (processPendingClips P e w)) = key w"
  by (auto simp: processPendingClips_def pending_list_def Let_def storage_set_def showToast_def
        push_def saveEncrypted_frame split: option.splits prod.splits)

lemma processPendingClips_pending:
  "remove_error e = None \<Longrightarrow>
   pendingClips (store (snd (processPendingClips P e w))) =
     (if snd (ingest e (pending_list (store w)) (snippets w, 0)) > 0 then None
      else pendingClips (store w))"
  by (auto simp: processPendingClips_def pending_list_def Let_def storage_set_def showToast_def
        push_def saveEncrypted_frame split: option.splits prod.splits)

lemma ingest_count_pos:
  "snd (ingest e clips (sn, 0)) > 0 \<longleftrightarrow> list_ex (\<lambda>c. clip_content c \<notin> sn_content ` set sn) clips"
proof -
  from ingest_shape [of e clips sn 0] obtain news where
    ing: "ingest e clips (sn, 0) = (news @ sn, length news)"
    and con: "map sn_content news =
         remdups (rev (filter (\<lambda>c. c \<notin> sn_content ` set sn) (map clip_content clips)))"
    by auto
  have "news \<noteq> [] \<longleftrightarrow> map sn_content news \<noteq> []" by simp
  also have "\<dots> \<longleftrightarrow> filter (\<lambda>c. c \<notin> sn_content ` set sn) (map clip_content clips) \<noteq> []"
    unfolding con by (metis remdups_eq_nil_iff rev_is_Nil_conv)
  also have "\<dots> \<longleftrightarrow> list_ex (\<lambda>c. clip_content c \<notin> sn_content ` set sn) clips"
    by (auto simp: filter_empty_conv list_ex_iff)
  finally show ?thesis using ing by simp
qed

lemma handleLogin_success:
  assumes "pin \<noteq> []" and "salt (store w) = Some slt"
    and "decrypt P (encryptedData (store w)) (pbkdf2 P pin (new_Uint8Array (Some slt))) = Inr col"
  shows "snd (handleLogin P e pin w) =
     (let w2 = push (DeriveKey pin (new_Uint8Array (Some slt))) w
                 \<lparr>key := Some (pbkdf2 P pin (new_Uint8Array (Some slt))), snippets := col\<rparr>
      in case processPendingClips P e w2 of
           (Some err, w3) \<Rightarrow> showToast ''Incorrect PIN'' ''error'' w3
         | (None, w3) \<Rightarrow> showView ''dashboard'' w3)"
  using assms
  by (simp add: handleLogin_def deriveKey_def push_def Let_def split: prod.splits option.splits)

lemma handleLogin_snippets:
  assumes "pin \<noteq> []" and "salt (store w) = Some slt"
    and "decrypt P (encryptedData (store w)) (pbkdf2 P pin (new_Uint8Array (Some slt))) = Inr col"
  shows "snippets (snd (handleLogin P e pin w)) = fst (ingest e (pending_list (store w)) (col, 0))"
    and "key (snd (handleLogin P e pin w)) = Some (pbkdf2 P pin (new_Uint8Array (Some slt)))"
    and "remove_error e = None \<Longrightarrow> pendingClips (store (snd (handleLogin P e pin w))) =
          (if snd (ingest e (pending_list (store w)) (col, 0)) > 0 then None
           else pendingClips (store w))"
proof -
  let ?w2 = "push (DeriveKey pin (new_Uint8Array (Some slt))) w
                 \<lparr>key := Some (pbkdf2 P pin (new_Uint8Array (Some slt))), snippets := col\<rparr>"
  obtain r w3 where p: "processPendingClips P e ?w2 = (r, w3)"
    by (cases "processPendingClips P e ?w2")
  have st: "store ?w2 = store w" "snippets ?w2 = col"
    "key ?w2 = Some (pbkdf2 P pin (new_Uint8Array (Some slt)))"
    by (simp_all add: push_def)
  have sn: "snippets w3 = fst (ingest e (pending_list (store w)) (col, 0))"
    using processPendingClips_snippets [of P e ?w2] p st by simp
  have ky: "key w3 = Some (pbkdf2 P pin (new_Uint8Array (Some slt)))"
    using processPendingClips_key [of P e ?w2] p st by simp
  have res: "snd (handleLogin P e pin w) =
      (case r of Some err \<Rightarrow> showToast ''Incorrect PIN'' ''error'' w3
               | None \<Rightarrow> showView ''dashboard'' w3)"
    using handleLogin_success [OF assms, of e] p by (simp add: Let_def split: option.splits)
  show "snippets (snd (handleLogin P e pin w)) = fst (ingest e (pending_list (store w)) (col, 0))"
    using res sn by (simp add: showToast_def showView_def push_def split: option.splits)
  show "key (snd (handleLogin P e pin w)) = Some (pbkdf2 P pin (new_Uint8Array (Some slt)))"
    using res ky by (simp add: showToast_def showView_def push_def split: option.splits)
  show "pendingClips (store (snd (handleLogin P e pin w))) =
          (if snd (ingest e (pending_list (store w)) (col, 0)) > 0 then None
           else pendingClips (store w))" if "remove_error e = None"
    using res processPendingClips_pending [OF that, of P ?w2] p st
    by (simp add: showToast_def showView_def push_def split: option.splits)
qed

text \<open>The envelope of the freshly loaded popup opens with the PIN \<open>123456\<close> on the small
  platform, to the empty collection.\<close>

lemma demo_opens:
  "salt (store locked_world) = Some (replicate 16 7)"
  "decrypt demo_platform (encryptedData (store locked_world))
        (pbkdf2 demo_platform ''123456'' (new_Uint8Array (Some (replicate 16 7)))) = Inr []"
  "pending_list (store locked_world) = [mk_clip ''foo'', mk_clip ''bar'']"
  "remove_error demo_env = None"
  by code_simp+

text \<open>
  Claim C7. On a successful unlock (a non-empty PIN, a stored salt, and an envelope that
  decrypts to the collection \<open>col\<close>) the session's collection is \<open>col\<close> with new
  snippets in front. A pending clip whose content some snippet has when the clip's turn
  comes, a snippet of \<open>col\<close> or one added for an earlier clip, is skipped; each other
  clip gives one snippet of type \<open>text\<close> tagged \<open>auto\<close> with the clip's content, put
  in front. If a snippet was added and \<open>remove\<close> is not rejected, the pending queue is
  unset. The witness is the scenario of the clips \<open>foo\<close>, \<open>bar\<close> and an empty
  collection.
\<close>

theorem unlock_reconciles_pending:
  assumes "pin \<noteq> []" and "salt (store w) = Some slt"
    and "decrypt P (encryptedData (store w)) (pbkdf2 P pin (new_Uint8Array (Some slt))) = Inr col"
  shows "\<exists>news. snippets (snd (handleLogin P e pin w)) = news @ col
      \<and> map sn_content news =
          remdups (rev (filter (\<lambda>c. c \<notin> sn_content ` set col)
                          (map clip_content (pending_list (store w)))))
      \<and> (\<forall>s \<in> set news. sn_type s = ''text'' \<and> sn_tags s = [''auto''])
      \<and> (remove_error e = None \<and> news \<noteq> [] \<longrightarrow>
           pendingClips (store (snd (handleLogin P e pin w))) = None)"
proof -
  from ingest_shape [of e "pending_list (store w)" col 0] obtain news where
    ing: "ingest e (pending_list (store w)) (col, 0) = (news @ col, length news)"
    and con: "map sn_content news =
          remdups (rev (filter (\<lambda>c. c \<notin> sn_content ` set col)
                          (map clip_content (pending_list (store w)))))"
    and tags: "\<forall>s \<in> set news. sn_type s = ''text'' \<and> sn_tags s = [''auto'']"
    by auto
  have "snippets (snd (handleLogin P e pin w)) = news @ col"
    using handleLogin_snippets(1) [OF assms, of e] ing by simp
  moreover have "remove_error e = None \<and> news \<noteq> [] \<longrightarrow>
           pendingClips (store (snd (handleLogin P e pin w))) = None"
    using handleLogin_snippets(3) [OF assms, of e] ing by simp
  ultimately show ?thesis using con tags by blast
qed

theorem unlock_reconciles_pending_witness:
  "''123456'' \<noteq> []
   \<and> salt (store locked_world) = Some (replicate 16 7)
   \<and> decrypt demo_platform (encryptedData (store locked_world))
        (pbkdf2 demo_platform ''123456'' (new_Uint8Array (Some (replicate 16 7)))) = Inr []
   \<and> pending_list (store locked_world) = [mk_clip ''foo'', mk_clip ''bar'']
   \<and> map sn_content (snippets (snd (handleLogin demo_platform demo_env ''123456'' locked_world))) =
       [''bar'', ''foo'']
   \<and> list_all (\<lambda>s. sn_type s = ''text'' \<and> sn_tags s = [''auto''])
        (snippets (snd (handleLogin demo_platform demo_env ''123456'' locked_world)))
   \<and> pendingClips (store (snd (handleLogin demo_platform demo_env ''123456'' locked_world))) = None"
proof -
  have p: "''123456'' \<noteq> []" by simp
  from unlock_reconciles_pending [OF p demo_opens(1) demo_opens(2), of demo_env]
  obtain news where
    sn: "snippets (snd (handleLogin demo_platform demo_env ''123456'' locked_world)) = news @ []"
    and con: "map sn_content news =
          remdups (rev (filter (\<lambda>c. c \<notin> sn_content ` set ([] :: snippet list))
                          (map clip_content (pending_list (store locked_world)))))"
    and tags: "\<forall>s \<in> set news. sn_type s = ''text'' \<and> sn_tags s = [''auto'']"
    and clr: "remove_error demo_env = None \<and> news \<noteq> [] \<longrightarrow>
           pendingClips (store (snd (handleLogin demo_platform demo_env ''123456'' locked_world))) = None"
    by blast
  have c2: "map sn_content news = [''bar'', ''foo'']"
    unfolding con demo_opens(3) by (simp add: mk_clip_def)
  then have ne: "news \<noteq> []" by auto
  show ?thesis
    using p demo_opens sn c2 tags clr ne by (simp add: list_all_iff)
qed

text \<open>
  Claim C2, as amended. On a successful unlock in which \<open>remove\<close> is not rejected, the
  pending queue is unset exactly when some pending clip has a content that no snippet
  of the decrypted collection has; otherwise, and so whenever zero snippets were added,
  the queue stays in storage as it was.
\<close>

theorem pending_cleared_when_added:
  assumes "pin \<noteq> []" and "salt (store w) = Some slt"
    and "decrypt P (encryptedData (store w)) (pbkdf2 P pin (new_Uint8Array (Some slt))) = Inr col"
    and "remove_error e = None"
  shows "pendingClips (store (snd (handleLogin P e pin w))) =
     (if list_ex (\<lambda>c. clip_content c \<notin> sn_content ` set col) (pending_list (store w)) then None
      else pendingClips (store w))"
  using handleLogin_snippets(3) [OF assms(1-3), of e] assms(4)
  by (simp add: ingest_count_pos)

theorem pending_cleared_when_added_witness:
  "''123456'' \<noteq> []
   \<and> salt (store locked_world) = Some (replicate 16 7)
   \<and> decrypt demo_platform (encryptedData (store locked_world))
        (pbkdf2 demo_platform ''123456'' (new_Uint8Array (Some (replicate 16 7)))) = Inr []
   \<and> remove_error demo_env = None
   \<and> pendingClips (store locked_world) = Some [mk_clip ''foo'', mk_clip ''bar'']
   \<and> pendingClips (store (snd (handleLogin demo_platform demo_env ''123456'' locked_world))) = None"
proof -
  have p: "''123456'' \<noteq> []" by simp
  have q: "pendingClips (store locked_world) = Some [mk_clip ''foo'', mk_clip ''bar'']"
    by code_simp
  from pending_cleared_when_added [OF p demo_opens(1) demo_opens(2) demo_opens(4)]
  show ?thesis
    using p demo_opens q by (simp add: mk_clip_def)
qed

text \<open>The claim as stated fails: with the snippet \<open>foo\<close> in the vault and the one
  pending clip \<open>foo\<close>, the unlock succeeds, adds nothing, and the pending queue is still
  in storage.\<close>

theorem pending_unchanged_counterexample:
  "opens demo_platform dup_store ''123456''
   \<and> key (snd (handleLogin demo_platform demo_env ''123456'' dup_world)) =
       Some (pbkdf2 demo_platform ''123456'' (replicate 16 7))
   \<and> map sn_content (snippets (snd (handleLogin demo_platform demo_env ''123456'' dup_world))) = [''foo'']
   \<and> pendingClips (store dup_world) = Some [mk_clip ''foo'']
   \<and> pendingClips (store (snd (handleLogin demo_platform demo_env ''123456'' dup_world))) =
       Some [mk_clip ''foo'']"
  by code_simp

section \<open>Round trip of encrypt and decrypt\<close>

text \<open>\<open>new Uint8Array(Array.from(bytes))\<close> gives the bytes back.\<close>

lemma uint8_roundtrip: "new_Uint8Array (Some (array_from bs)) = bs"
  by (simp add: new_Uint8Array_def array_from_def map_idI)

lemma decrypt_encrypt:
  assumes "\<And>iv pt. aes_gcm_decrypt P K iv (aes_gcm_encrypt P K iv pt) = Some pt"
    and "serializable P C"
  shows "decrypt P (Some (encrypt P e C K)) K = Inr C"
  using assms
  by (simp add: decrypt_def encrypt_def Let_def uint8_roundtrip serializable_def)

text \<open>
  Claim C5. On a platform whose AES-GCM decrypts what it encrypted under the same key and
  IV, for every key \<open>K\<close> and every collection \<open>C\<close> that is serializable (it survives
  \<open>JSON.stringify\<close>, the encoder, the decoder and \<open>JSON.parse\<close>), decrypting the
  envelope that \<open>encrypt\<close> makes of \<open>C\<close> under \<open>K\<close> with \<open>K\<close> returns \<open>C\<close>, whatever
  the random IV.
\<close>

theorem encrypt_decrypt_roundtrip:
  assumes "\<And>iv pt. aes_gcm_decrypt P K iv (aes_gcm_encrypt P K iv pt) = Some pt"
    and "serializable P C"
  shows "decrypt P (Some (encrypt P e C K)) K = Inr C"
  using assms by (rule decrypt_encrypt)

lemma demo_aead:
  "aes_gcm_decrypt demo_platform k iv (aes_gcm_encrypt demo_platform k iv pt) = Some pt"
  by (simp add: demo_platform_def)

theorem encrypt_decrypt_roundtrip_witness:
  "(\<forall>iv pt. aes_gcm_decrypt demo_platform (map of_char ''123456'' @ replicate 16 7) iv
        (aes_gcm_encrypt demo_platform (map of_char ''123456'' @ replicate 16 7) iv pt) = Some pt)
   \<and> serializable demo_platform [mk_snippet ''a'' ''hello'']
   \<and> decrypt demo_platform
        (Some (encrypt demo_platform demo_env [mk_snippet ''a'' ''hello'']
                 (map of_char ''123456'' @ replicate 16 7)))
        (map of_char ''123456'' @ replicate 16 7) = Inr [mk_snippet ''a'' ''hello'']"
proof -
  have s: "serializable demo_platform [mk_snippet ''a'' ''hello'']"
    by code_simp
  from encrypt_decrypt_roundtrip [OF demo_aead s] demo_aead s show ?thesis
    by blast
qed

section \<open>Unlock attempts with an incorrect PIN\<close>

lemma handleLogin_wrong:
  assumes "\<not> opens P (store w) pin"
  shows "fst (handleLogin P e pin w) = None \<and> store (snd (handleLogin P e pin w)) = store w
       \<and> key (snd (handleLogin P e pin w)) = key w
       \<and> snippets (snd (handleLogin P e pin w)) = snippets w"
proof (cases "pin = []")
  case True
  then show ?thesis by (simp add: handleLogin_def)
next
  case False
  show ?thesis
  proof (cases "salt (store w)")
    case None
    with False show ?thesis
      by (simp add: handleLogin_def showView_def push_def)
  next
    case (Some slt)
    with assms obtain err where
      "decrypt P (encryptedData (store w)) (pbkdf2 P pin (new_Uint8Array (Some slt))) = Inl err"
      by (auto simp: opens_def split: sum.splits)
    with False Some show ?thesis
      by (simp add: handleLogin_def deriveKey_def showToast_def push_def Let_def)
  qed
qed

text \<open>
  Claim C6. A PIN is incorrect for the storage when the key derived from it and the
  stored salt does not decrypt the stored envelope. Any number of unlock attempts in a
  row with incorrect PINs, whatever the other inputs of each attempt, leave the storage
  (salt, envelope, pending queue) as it was, and leave the session's key and collection
  as they were: a locked session, with no key, stays locked.
\<close>

theorem wrong_pin_idempotent:
  assumes "list_all (\<lambda>(e, pin). \<not> opens P (store w) pin) attempts"
  shows "store (loginAll P attempts w) = store w
       \<and> key (loginAll P attempts w) = key w
       \<and> snippets (loginAll P attempts w) = snippets w"
  using assms
proof (induction attempts arbitrary: w)
  case Nil
  then show ?case by simp
next
  case (Cons a attempts)
  obtain e pin where a: "a = (e, pin)" by (cases a)
  let ?w1 = "snd (handleLogin P e pin w)"
  from Cons.prems a have wrong: "\<not> opens P (store w) pin"
    and rest: "list_all (\<lambda>(e, pin). \<not> opens P (store w) pin) attempts"
    by simp_all
  note one = handleLogin_wrong [OF wrong, of e]
  from rest one have "list_all (\<lambda>(e, pin). \<not> opens P (store ?w1) pin) attempts"
    by simp
  from Cons.IH [OF this] one show ?case
    by (simp add: a)
qed

theorem wrong_pin_idempotent_witness:
  "list_all (\<lambda>(e, pin). \<not> opens demo_platform (store locked_world) pin)
      [(demo_env, ''654321''), (quota_env, ''000000''), (demo_env, ''12345'')]
   \<and> opens demo_platform (store locked_world) ''123456''
   \<and> key locked_world = None
   \<and> store (loginAll demo_platform
        [(demo_env, ''654321''), (quota_env, ''000000''), (demo_env, ''12345'')] locked_world) = demo_store
   \<and> key (loginAll demo_platform
        [(demo_env, ''654321''), (quota_env, ''000000''), (demo_env, ''12345'')] locked_world) = None
   \<and> snippets (loginAll demo_platform
        [(demo_env, ''654321''), (quota_env, ''000000''), (demo_env, ''12345'')] locked_world) = []"
proof -
  have h: "list_all (\<lambda>(e, pin). \<not> opens demo_platform (store locked_world) pin)
      [(demo_env, ''654321''), (quota_env, ''000000''), (demo_env, ''12345'')]"
    by code_simp
  have o: "opens demo_platform (store locked_world) ''123456''"
    by code_simp
  have l: "key locked_world = None" "store locked_world = demo_store" "snippets locked_world = []"
    by (simp_all add: locked_world_def page_load_def showView_def push_def)
  from wrong_pin_idempotent [OF h] h o l show ?thesis
    by simp
qed

section \<open>PIN format and key derivation\<close>

text \<open>Toasts and view switches are no derivations; the handlers below derive a key at
  most once.\<close>

lemma derivations_append: "derivations (xs @ ys) = derivations xs @ derivations ys"
  by (induction xs rule: derivations.induct) simp_all

lemma saveEncrypted_derivations:
  "derivations (trace (snd (saveEncrypted P e w))) = derivations (trace w)"
  by (auto simp: saveEncrypted_def storage_set_def showToast_def push_def Let_def derivations_append
           split: option.splits)

lemma processPendingClips_derivations:
  "derivations (trace (snd (processPendingClips P e w))) = derivations (trace w)"
proof -
  have "derivations (trace (snd (saveEncrypted P e (w\<lparr>snippets := sn\<rparr>)))) = derivations (trace w)" for sn
    using saveEncrypted_derivations [of P e "w\<lparr>snippets := sn\<rparr>"] by simp
  then show ?thesis
    by (auto simp: processPendingClips_def storage_set_def showToast_def push_def Let_def
          derivations_append split: option.splits prod.splits)
qed

lemma handleSetup_derivations:
  "derivations (trace (snd (handleSetup P e pin confirm w))) =
     derivations (trace w) @ (if six_digits pin \<and> pin = confirm then [(pin, generateSalt e)] else [])"
  by (auto simp: handleSetup_def validatePin_def deriveKey_def storage_set_def showToast_def
        showView_def push_def Let_def derivations_append split: option.splits)

lemma handleChangePin_derivations:
  "derivations (trace (snd (handleChangePin P e pin confirm w))) =
     derivations (trace w) @ (if six_digits pin \<and> pin = confirm then [(pin, generateSalt e)] else [])"
  by (auto simp: handleChangePin_def validatePin_def deriveKey_def storage_set_def showToast_def
        showView_def push_def Let_def derivations_append split: option.splits)

lemma handleLogin_derivations:
  "derivations (trace (snd (handleLogin P e pin w))) =
     derivations (trace w) @
       (if pin \<noteq> [] \<and> salt (store w) \<noteq> None then [(pin, new_Uint8Array (salt (store w)))] else [])"
proof (cases "pin = []")
  case True
  then show ?thesis by (simp add: handleLogin_def)
next
  case False
  show ?thesis
  proof (cases "salt (store w)")
    case None
    with False show ?thesis
      by (simp add: handleLogin_def showView_def push_def derivations_append)
  next
    case (Some slt)
    let ?w1 = "push (DeriveKey pin (new_Uint8Array (Some slt))) w"
    have d1: "derivations (trace ?w1) = derivations (trace w) @ [(pin, new_Uint8Array (Some slt))]"
      by (simp add: push_def derivations_append)
    have d2: "derivations (trace (snd (processPendingClips P e (?w1\<lparr>key := Some k, snippets := sn\<rparr>)))) =
              derivations (trace ?w1)" for k sn
      using processPendingClips_derivations [of P e "?w1\<lparr>key := Some k, snippets := sn\<rparr>"] by simp
    show ?thesis
    proof (cases "decrypt P (encryptedData (store w)) (pbkdf2 P pin (new_Uint8Array (Some slt)))")
      case (Inl err)
      with False Some d1 show ?thesis
        by (simp add: handleLogin_def deriveKey_def showToast_def push_def Let_def derivations_append)
    next
      case (Inr sn)
      let ?k = "pbkdf2 P pin (new_Uint8Array (Some slt))"
      obtain r w3 where p: "processPendingClips P e (?w1\<lparr>key := Some ?k, snippets := sn\<rparr>) = (r, w3)"
        by (cases "processPendingClips P e (?w1\<lparr>key := Some ?k, snippets := sn\<rparr>)")
      with d2 [where k = ?k and sn = sn] have d3: "derivations (trace w3) = derivations (trace ?w1)" by simp
      have "snd (handleLogin P e pin w) =
            (case r of Some err \<Rightarrow> showToast ''Incorrect PIN'' ''error'' w3
                     | None \<Rightarrow> showView ''dashboard'' w3)"
        using False Some Inr p
        by (simp add: handleLogin_def deriveKey_def Let_def push_def split: option.splits)
      with d3 d1 False Some show ?thesis
        by (simp add: showToast_def showView_def push_def derivations_append split: option.splits)
    qed
  qed
qed

text \<open>
  Claim C4, as amended. \<open>handleSetup\<close> and \<open>handleChangePin\<close> call \<open>deriveKey\<close>
  exactly when the PIN is six digits and equals its confirmation, so a PIN that is not
  six digits is rejected before any derivation. \<open>handleLogin\<close> does not check the
  format: it derives a key from every non-empty PIN whenever a salt is stored, and
  rejects only the empty PIN.
\<close>

theorem pin_checked_before_derivation:
  "derivations (trace (snd (handleSetup P e pin confirm w))) =
     derivations (trace w) @ (if six_digits pin \<and> pin = confirm then [(pin, generateSalt e)] else [])
   \<and> derivations (trace (snd (handleChangePin P e pin confirm w))) =
     derivations (trace w) @ (if six_digits pin \<and> pin = confirm then [(pin, generateSalt e)] else [])
   \<and> derivations (trace (snd (handleLogin P e pin w))) =
     derivations (trace w) @
       (if pin \<noteq> [] \<and> salt (store w) \<noteq> None then [(pin, new_Uint8Array (salt (store w)))] else [])"
  by (simp only: handleSetup_derivations handleChangePin_derivations handleLogin_derivations simp_thms)

theorem pin_checked_before_derivation_witness:
  "\<not> six_digits ''12a456''
   \<and> derivations (trace (snd (handleSetup demo_platform demo_env ''12a456'' ''12a456'' locked_world))) = []
   \<and> derivations (trace (snd (handleChangePin demo_platform demo_env ''12a456'' ''12a456'' unlocked_world))) = []
   \<and> derivations (trace (snd (handleLogin demo_platform demo_env '''' locked_world))) = []"
proof -
  have n: "\<not> six_digits ''12a456''" by code_simp
  have t: "derivations (trace locked_world) = []" "derivations (trace unlocked_world) = []"
    by code_simp+
  from pin_checked_before_derivation [of demo_platform demo_env "''12a456''" "''12a456''" locked_world]
    pin_checked_before_derivation [of demo_platform demo_env "''12a456''" "''12a456''" unlocked_world]
    pin_checked_before_derivation [of demo_platform demo_env "''''" _ locked_world]
    n t show ?thesis by simp
qed

text \<open>The claim as stated fails for unlock: the five-digit PIN \<open>12345\<close> is not six
  digits, and \<open>handleLogin\<close> derives a key from it.\<close>

theorem login_derives_malformed_counterexample:
  "\<not> six_digits ''12345''
   \<and> derivations (trace locked_world) = []
   \<and> derivations (trace (snd (handleLogin demo_platform demo_env ''12345'' locked_world))) =
       [(''12345'', replicate 16 7)]"
  by code_simp

section \<open>Changing the PIN\<close>

text \<open>
  Claim C1. From an unlocked session, \<open>handleChangePin\<close> ends in one of two states. If
  the PIN is six digits, equals its confirmation and the one \<open>set\<close> call is not
  rejected, the storage holds the new salt and the envelope of the collection under the
  new key, both written by that call, and the session key is the new key. In every other
  case, a rejected write among them, the storage is as it was and the session key is the
  old key. The collection in memory is the same in both.
\<close>

theorem rekey_atomic:
  assumes "key w = Some k0"
  shows "fst (handleChangePin P e p1 p2 w) = None
   \<and> snippets (snd (handleChangePin P e p1 p2 w)) = snippets w
   \<and> (six_digits p1 \<and> p1 = p2 \<and> set_error e = None \<longrightarrow>
        store (snd (handleChangePin P e p1 p2 w)) =
          (store w)\<lparr>salt := Some (array_from (generateSalt e)),
                    encryptedData := Some (encrypt P e (snippets w) (pbkdf2 P p1 (generateSalt e)))\<rparr>
        \<and> key (snd (handleChangePin P e p1 p2 w)) = Some (pbkdf2 P p1 (generateSalt e)))
   \<and> (\<not> (six_digits p1 \<and> p1 = p2 \<and> set_error e = None) \<longrightarrow>
        store (snd (handleChangePin P e p1 p2 w)) = store w
        \<and> key (snd (handleChangePin P e p1 p2 w)) = Some k0)"
  using assms
  by (auto simp: handleChangePin_def validatePin_def deriveKey_def storage_set_def showToast_def
        push_def Let_def split: option.splits)

theorem rekey_atomic_witness:
  "key unlocked_world = Some (map of_char ''123456'' @ replicate 16 7)
   \<and> six_digits ''999999'' \<and> set_error rekey_env = None \<and> set_error quota_env \<noteq> None
   \<and> salt (store (snd (handleChangePin demo_platform rekey_env ''999999'' ''999999'' unlocked_world))) =
        Some (replicate 16 5)
   \<and> encryptedData (store (snd (handleChangePin demo_platform rekey_env ''999999'' ''999999'' unlocked_world))) =
        Some (encrypt demo_platform rekey_env [mk_snippet ''a'' ''hello'']
                (map of_char ''999999'' @ replicate 16 5))
   \<and> key (snd (handleChangePin demo_platform rekey_env ''999999'' ''999999'' unlocked_world)) =
        Some (map of_char ''999999'' @ replicate 16 5)
   \<and> store (snd (handleChangePin demo_platform quota_env ''999999'' ''999999'' unlocked_world)) =
        demo_store
   \<and> key (snd (handleChangePin demo_platform quota_env ''999999'' ''999999'' unlocked_world)) =
        Some (map of_char ''123456'' @ replicate 16 7)"
proof -
  have k: "key unlocked_world = Some (map of_char ''123456'' @ replicate 16 7)"
    by (simp add: unlocked_world_def)
  have six: "six_digits ''999999''"
    by code_simp
  have e1: "set_error rekey_env = None" and e2: "set_error quota_env \<noteq> None"
    by (simp_all add: rekey_env_def quota_env_def demo_env_def)
  have g: "generateSalt rekey_env = replicate 16 5" "generateSalt quota_env = replicate 16 5"
    by code_simp+
  have p: "pbkdf2 demo_platform ''999999'' (replicate 16 5) = map of_char ''999999'' @ replicate 16 5"
    by (simp add: demo_platform_def)
  have a: "array_from (replicate 16 5) = replicate 16 5"
    by code_simp
  have u: "store unlocked_world = demo_store" "snippets unlocked_world = [mk_snippet ''a'' ''hello'']"
    by (simp_all add: unlocked_world_def)
  from rekey_atomic [OF k, of demo_platform rekey_env "''999999''" "''999999''"] six e1
  have ok: "store (snd (handleChangePin demo_platform rekey_env ''999999'' ''999999'' unlocked_world)) =
      demo_store\<lparr>salt := Some (replicate 16 5),
         encryptedData := Some (encrypt demo_platform rekey_env [mk_snippet ''a'' ''hello'']
                (map of_char ''999999'' @ replicate 16 5))\<rparr>"
    and okk: "key (snd (handleChangePin demo_platform rekey_env ''999999'' ''999999'' unlocked_world)) =
        Some (map of_char ''999999'' @ replicate 16 5)"
    by (simp_all only: g p a u simp_thms)
  from rekey_atomic [OF k, of demo_platform quota_env "''999999''" "''999999''"] e2
  have bad: "store (snd (handleChangePin demo_platform quota_env ''999999'' ''999999'' unlocked_world)) =
        demo_store"
    and badk: "key (snd (handleChangePin demo_platform quota_env ''999999'' ''999999'' unlocked_world)) =
        Some (map of_char ''123456'' @ replicate 16 7)"
    by (simp_all add: u)
  show ?thesis
    using k six e1 e2 okk bad badk by (simp add: ok)
qed

text \<open>After a PIN change that was written, the new PIN opens the vault to the same
  collection, on a platform whose AES-GCM decrypts what it encrypted.\<close>

lemma rekey_new_pin_opens:
  assumes "\<And>k iv pt. aes_gcm_decrypt P k iv (aes_gcm_encrypt P k iv pt) = Some pt"
    and "serializable P (snippets w)" and "six_digits p1" and "set_error e = None"
  shows "decrypt P (encryptedData (store (snd (handleChangePin P e p1 p1 w))))
           (pbkdf2 P p1 (new_Uint8Array (salt (store (snd (handleChangePin P e p1 p1 w))))))
         = Inr (snippets w)"
proof -
  have "store (snd (handleChangePin P e p1 p1 w)) =
          (store w)\<lparr>salt := Some (array_from (generateSalt e)),
                    encryptedData := Some (encrypt P e (snippets w) (pbkdf2 P p1 (generateSalt e)))\<rparr>"
    using assms(3,4)
    by (simp add: handleChangePin_def validatePin_def deriveKey_def storage_set_def showToast_def
        push_def Let_def)
  then show ?thesis
    using decrypt_encrypt [of P "pbkdf2 P p1 (generateSalt e)" "snippets w" e] assms(1,2)
    by (simp add: uint8_roundtrip)
qed


end
